theory Spec2Isabelle
  imports Main "HOL-Library.Word" "HOL-Library.Sublist"
begin

section \<open>Values of the JavaScript program\<close>

text \<open>
  \<^verbatim>\<open>src/App.jsx\<close> works on two kinds of sequences: \<^verbatim>\<open>Uint8Array\<close>s, whose elements
  are 8-bit unsigned integers, and JavaScript strings, which are sequences of 16-bit code
  units. \<open>str\<close> writes a string literal of the source as code units.
\<close>

type_synonym byte = "8 word"
type_synonym code_unit = "16 word"
type_synonym jsstring = "code_unit list"

definition str :: "string \<Rightarrow> jsstring" where
  "str s = map (\<lambda>c. of_nat (of_char c)) s"

text \<open>
  The exceptions that the platform calls of the source can throw: \<^verbatim>\<open>btoa\<close> and
  \<^verbatim>\<open>atob\<close> throw a DOMException named InvalidCharacterError, a gzip
  \<^verbatim>\<open>DecompressionStream\<close> errors its stream with a TypeError, and reading a file that
  has become unreadable fails with NotReadableError.
\<close>

datatype js_error = InvalidCharacterError | TypeError | NotReadableError

section \<open>The platform's base64 functions\<close>

text \<open>
  \<^verbatim>\<open>btoa\<close> and \<^verbatim>\<open>atob\<close> are the browser's functions, defined by the HTML standard through
  the "forgiving-base64" encode and decode of the Infra standard. The alphabet is the one
  of RFC 4648, the padding character is \<^verbatim>\<open>=\<close> (0x3D).
\<close>

definition b64_alphabet :: jsstring where
  "b64_alphabet = str ''ABCDEFGHIJKLMNOPQRSTUVWXYZabcdefghijklmnopqrstuvwxyz0123456789+/''"

definition b64_char :: "nat \<Rightarrow> code_unit" where
  "b64_char n = b64_alphabet ! n"

fun index_of :: "'a \<Rightarrow> 'a list \<Rightarrow> nat option" where
  "index_of c [] = None"
| "index_of c (x # xs) =
     (if c = x then Some 0 else (case index_of c xs of None \<Rightarrow> None | Some n \<Rightarrow> Some (Suc n)))"

definition b64_value :: "code_unit \<Rightarrow> nat option" where
  "b64_value c = index_of c b64_alphabet"

definition padding_char :: code_unit where
  "padding_char = 0x3D"

text \<open>
  Encoding takes the bytes three at a time, 24 bits, and cuts them into four 6-bit values:
  the high six bits of the first byte; its low two bits with the high four of the second;
  the low four bits of the second with the high two of the third; the low six bits of the
  third. A last group of two bytes gives three values and a last group of one byte gives
  two, the missing low bits being zero.
\<close>

fun sextets :: "byte list \<Rightarrow> nat list" where
  "sextets (b1 # b2 # b3 # bs) =
     [unat b1 div 4,
      unat b1 mod 4 * 16 + unat b2 div 16,
      unat b2 mod 16 * 4 + unat b3 div 64,
      unat b3 mod 64] @ sextets bs"
| "sextets [b1, b2] =
     [unat b1 div 4,
      unat b1 mod 4 * 16 + unat b2 div 16,
      unat b2 mod 16 * 4]"
| "sextets [b1] =
     [unat b1 div 4,
      unat b1 mod 4 * 16]"
| "sextets [] = []"

definition forgiving_base64_encode :: "byte list \<Rightarrow> jsstring" where
  "forgiving_base64_encode bs =
     map b64_char (sextets bs) @ replicate ((3 - length bs mod 3) mod 3) padding_char"

text \<open>
  Decoding appends six bits per character to a buffer and emits three bytes whenever the
  buffer holds 24 bits, that is after every fourth character. A buffer left with 18 bits
  drops its last two bits and gives two bytes, one left with 12 bits drops its last four
  and gives one byte.
\<close>

fun octets :: "nat list \<Rightarrow> byte list" where
  "octets (s1 # s2 # s3 # s4 # ss) =
     [of_nat (s1 * 4 + s2 div 16),
      of_nat (s2 mod 16 * 16 + s3 div 4),
      of_nat (s3 mod 4 * 64 + s4)] @ octets ss"
| "octets [s1, s2, s3] =
     [of_nat (s1 * 4 + s2 div 16),
      of_nat (s2 mod 16 * 16 + s3 div 4)]"
| "octets [s1, s2] =
     [of_nat (s1 * 4 + s2 div 16)]"
| "octets ss = []"

text \<open>ASCII whitespace is TAB, LF, FF, CR and SPACE.\<close>

definition ascii_whitespace :: "code_unit \<Rightarrow> bool" where
  "ascii_whitespace c \<longleftrightarrow> c = 0x09 \<or> c = 0x0A \<or> c = 0x0C \<or> c = 0x0D \<or> c = 0x20"

text \<open>"If data ends with one or two U+003D (=) code points, then remove them from data."\<close>

definition remove_padding :: "jsstring \<Rightarrow> jsstring" where
  "remove_padding d =
     (if 2 \<le> length d \<and> last d = padding_char \<and> last (butlast d) = padding_char
        then butlast (butlast d)
      else if d \<noteq> [] \<and> last d = padding_char then butlast d
      else d)"

text \<open>
  The steps of forgiving-base64 decode, in the standard's order: remove the ASCII
  whitespace; when the length is a multiple of four, remove one or two trailing padding
  characters; fail when the length leaves remainder 1; fail when a character is not in the
  alphabet (a padding character that was not removed is such a character); decode. None is
  the standard's "failure". The standard counts the length in code points; a string where
  that differs from the number of code units holds a surrogate, which is outside the
  alphabet, so it fails either way.
\<close>

definition forgiving_base64_decode :: "jsstring \<Rightarrow> byte list option" where
  "forgiving_base64_decode s =
     (let d = filter (\<lambda>c. \<not> ascii_whitespace c) s;
          d = (if length d mod 4 = 0 then remove_padding d else d)
      in if length d mod 4 = 1 then None
         else (case those (map b64_value d) of
                 None \<Rightarrow> None
               | Some ss \<Rightarrow> Some (octets ss)))"

text \<open>
  \<^verbatim>\<open>btoa(data)\<close> throws when data holds a code unit above 0xFF and otherwise encodes the
  bytes that the code units are; \<^verbatim>\<open>atob(data)\<close> throws when the decoding fails and
  otherwise returns the bytes as code units.
\<close>

definition btoa :: "jsstring \<Rightarrow> js_error + jsstring" where
  "btoa s =
     (if list_ex (\<lambda>c. 0xFF < c) s then Inl InvalidCharacterError
      else Inr (forgiving_base64_encode (map ucast s)))"

definition atob :: "jsstring \<Rightarrow> js_error + jsstring" where
  "atob s =
     (case forgiving_base64_decode s of
        None \<Rightarrow> Inl InvalidCharacterError
      | Some bs \<Rightarrow> Inr (map ucast bs))"

section \<open>The base64 helpers of the source\<close>

text \<open>
  \<^verbatim>\<open>
  const uint8ToBase64 = (u8) => {
    let binary = "";
    const chunkSize = 0x8000; // 32KB chunks
    for (let i = 0; i < u8.length; i += chunkSize) {
      const chunk = u8.subarray(i, i + chunkSize);
      binary += String.fromCharCode.apply(null, chunk);
    }
    return btoa(binary);
  };
  \<close>
  \<open>subarray\<close> is the view from index \<open>b\<close> up to, not including, index \<open>e\<close>, both clamped to
  the length of the array (the indices of the source are never negative).
  \<open>fromCharCode\<close> turns each element into the code unit of the same value.
\<close>

definition chunkSize :: nat where
  "chunkSize = 0x8000"

definition subarray :: "'a list \<Rightarrow> nat \<Rightarrow> nat \<Rightarrow> 'a list" where
  "subarray u8 b e = take (e - b) (drop b u8)"

definition fromCharCode :: "byte list \<Rightarrow> jsstring" where
  "fromCharCode chunk = map ucast chunk"

function chunk_loop :: "byte list \<Rightarrow> nat \<Rightarrow> jsstring \<Rightarrow> jsstring" where
  "chunk_loop u8 i binary =
     (if i < length u8
        then chunk_loop u8 (i + chunkSize) (binary @ fromCharCode (subarray u8 i (i + chunkSize)))
      else binary)"
  by pat_completeness auto
termination
  by (relation "measure (\<lambda>(u8, i, binary). length u8 - i)") (auto simp: chunkSize_def)

declare chunk_loop.simps [simp del]

definition uint8ToBase64 :: "byte list \<Rightarrow> js_error + jsstring" where
  "uint8ToBase64 u8 = btoa (chunk_loop u8 0 [])"

text \<open>
  \<^verbatim>\<open>
  const base64ToUint8 = (b64) => {
    const binary = atob(b64);
    const len = binary.length;
    const u8 = new Uint8Array(len);
    for (let i = 0; i < len; i++) {
      u8[i] = binary.charCodeAt(i);
    }
    return u8;
  };
  \<close>
  A new \<^verbatim>\<open>Uint8Array\<close> is filled with zeros; storing a number in it keeps the number
  modulo 256.
\<close>

function fill_loop :: "jsstring \<Rightarrow> nat \<Rightarrow> nat \<Rightarrow> byte list \<Rightarrow> byte list" where
  "fill_loop binary len i u8 =
     (if i < len then fill_loop binary len (i + 1) (u8[i := ucast (binary ! i)]) else u8)"
  by pat_completeness auto
termination
  by (relation "measure (\<lambda>(binary, len, i, u8). len - i)") auto

declare fill_loop.simps [simp del]

definition base64ToUint8 :: "jsstring \<Rightarrow> js_error + byte list" where
  "base64ToUint8 b64 =
     (case atob b64 of
        Inl err \<Rightarrow> Inl err
      | Inr binary \<Rightarrow>
          (let len = length binary; u8 = replicate len 0
           in Inr (fill_loop binary len 0 u8)))"

section \<open>The gzip adapter\<close>

text \<open>
  A call that throws passes its exception on: the rest of a \<^verbatim>\<open>try\<close> block is skipped.
\<close>

definition and_then :: "'e + 'a \<Rightarrow> ('a \<Rightarrow> 'e + 'b) \<Rightarrow> 'e + 'b" where
  "and_then r f = (case r of Inl err \<Rightarrow> Inl err | Inr v \<Rightarrow> f v)"

text \<open>
  The source does not implement gzip: it pipes the bytes through the browser's
  \<^verbatim>\<open>CompressionStream("gzip")\<close> and \<^verbatim>\<open>DecompressionStream("gzip")\<close>, and it reads an
  uploaded text file with \<^verbatim>\<open>FileReader.readAsText\<close>. These three are parameters of the
  model. \<open>gunzip\<close> is None where the decompression stream errors, which is how the platform
  answers input that is not a gzip stream.
\<close>

record platform =
  gzip :: "byte list \<Rightarrow> byte list"
  gunzip :: "byte list \<Rightarrow> byte list option"
  utf8_decode :: "byte list \<Rightarrow> jsstring"

text \<open>
  A \<^verbatim>\<open>File\<close> has a name and bytes; \<open>bytes\<close> is None for a file that can no longer be
  read, in which case every read of it fails.
\<close>

record js_file =
  name :: jsstring
  bytes :: "byte list option"

text \<open>
  \<^verbatim>\<open>
  const compress = async (blob) => {
    const cs = new CompressionStream("gzip");
    const compressedStream = blob.stream().pipeThrough(cs);
    return new Uint8Array(await new Response(compressedStream).arrayBuffer());
  };

  const decompress = async (u8) => {
    const ds = new DecompressionStream("gzip");
    const decompressedStream = new Blob([u8]).stream().pipeThrough(ds);
    return new Uint8Array(await new Response(decompressedStream).arrayBuffer());
  };
  \<close>
\<close>

definition compress :: "platform \<Rightarrow> byte list option \<Rightarrow> js_error + byte list" where
  "compress P blob =
     (case blob of
        None \<Rightarrow> Inl NotReadableError
      | Some bs \<Rightarrow> Inr (gzip P bs))"

definition decompress :: "platform \<Rightarrow> byte list \<Rightarrow> js_error + byte list" where
  "decompress P u8 =
     (case gunzip P u8 of
        None \<Rightarrow> Inl TypeError
      | Some bs \<Rightarrow> Inr bs)"

section \<open>The component state and its handlers\<close>

text \<open>
  The six \<^verbatim>\<open>useState\<close> slots of \<^verbatim>\<open>FileCompressor\<close>. \<open>restoredBlob\<close> and \<open>error\<close> start
  as \<^verbatim>\<open>null\<close>. The error slot holds a message built from the caught exception; the model
  keeps which handler built it and from which exception.
\<close>

datatype ui_error = FailedToCompress js_error | ErrorDecompressing js_error

record app_state =
  compressedText :: jsstring
  fileName :: jsstring
  restoredBlob :: "byte list option"
  error :: "ui_error option"
  isCompressing :: bool
  isDecompressing :: bool

definition initial_state :: app_state where
  "initial_state =
     \<lparr>compressedText = [], fileName = [], restoredBlob = None, error = None,
      isCompressing = False, isDecompressing = False\<rparr>"

text \<open>
  \<^verbatim>\<open>
  const handleFileUpload = async (e) => {
    const file = e.target.files?.[0];
    if (!file) return;

    setError(null);
    setIsCompressing(true);
    setFileName(file.name);

    try {
      const compressedBytes = await compress(file);
      const base64 = uint8ToBase64(compressedBytes);
      setCompressedText(base64);
    } catch (err) {
      setError("Failed to compress file: " + err.message);
    } finally {
      setIsCompressing(false);
    }
  };
  \<close>
  The handler is asynchronous: it runs up to its first \<^verbatim>\<open>await\<close>, where the component is
  rendered with the state reached so far (\<open>handleFileUpload_start\<close>), and continues when
  the compressed bytes have arrived (\<open>handleFileUpload_finish\<close>). The event carries the
  selected file, or none.
\<close>

definition handleFileUpload_start :: "js_file \<Rightarrow> app_state \<Rightarrow> app_state" where
  "handleFileUpload_start file s =
     s\<lparr>error := None, isCompressing := True, fileName := name file\<rparr>"

definition compress_run :: "platform \<Rightarrow> js_file \<Rightarrow> js_error + jsstring" where
  "compress_run P file = and_then (compress P (bytes file)) uint8ToBase64"

definition handleFileUpload_finish :: "platform \<Rightarrow> js_file \<Rightarrow> app_state \<Rightarrow> app_state" where
  "handleFileUpload_finish P file s =
     (case compress_run P file of
        Inr base64 \<Rightarrow> s\<lparr>compressedText := base64, isCompressing := False\<rparr>
      | Inl err \<Rightarrow> s\<lparr>error := Some (FailedToCompress err), isCompressing := False\<rparr>)"

definition handleFileUpload :: "platform \<Rightarrow> js_file option \<Rightarrow> app_state \<Rightarrow> app_state" where
  "handleFileUpload P e s =
     (case e of
        None \<Rightarrow> s
      | Some file \<Rightarrow> handleFileUpload_finish P file (handleFileUpload_start file s))"

text \<open>
  \<^verbatim>\<open>
  const handleTxtUpload = async (e) => {
    const file = e.target.files?.[0];
    if (!file) return;

    setError(null);
    setIsDecompressing(true);

    const reader = new FileReader();
    reader.onload = async () => {
      try {
        const compressedBase64 = reader.result;
        const compressedBytes = base64ToUint8(compressedBase64);
        const decompressedBytes = await decompress(compressedBytes);
        const blob = new Blob([decompressedBytes]);
        setRestoredBlob(blob);
      } catch (err) {
        setError(err+"Error decompressing file. Maybe wrong TXT format?");
      } finally {
        setIsDecompressing(false);
      }
    };
    reader.readAsText(file);
  };
  \<close>
  \<open>reader_onload\<close> is the callback. It runs only when the read succeeds; the reader has no
  \<^verbatim>\<open>onerror\<close> callback, so after a failed read the state stays as the start of the handler
  left it. The handler does not call \<^verbatim>\<open>setFileName\<close>.
\<close>

definition handleTxtUpload_start :: "app_state \<Rightarrow> app_state" where
  "handleTxtUpload_start s = s\<lparr>error := None, isDecompressing := True\<rparr>"

definition readAsText :: "platform \<Rightarrow> js_file \<Rightarrow> jsstring option" where
  "readAsText P file =
     (case bytes file of
        None \<Rightarrow> None
      | Some bs \<Rightarrow> Some (utf8_decode P bs))"

definition restore_run :: "platform \<Rightarrow> jsstring \<Rightarrow> js_error + byte list" where
  "restore_run P compressedBase64 = and_then (base64ToUint8 compressedBase64) (decompress P)"

definition reader_onload :: "platform \<Rightarrow> jsstring \<Rightarrow> app_state \<Rightarrow> app_state" where
  "reader_onload P compressedBase64 s =
     (case restore_run P compressedBase64 of
        Inr decompressedBytes \<Rightarrow> s\<lparr>restoredBlob := Some decompressedBytes, isDecompressing := False\<rparr>
      | Inl err \<Rightarrow> s\<lparr>error := Some (ErrorDecompressing err), isDecompressing := False\<rparr>)"

definition handleTxtUpload :: "platform \<Rightarrow> js_file option \<Rightarrow> app_state \<Rightarrow> app_state" where
  "handleTxtUpload P e s =
     (case e of
        None \<Rightarrow> s
      | Some file \<Rightarrow>
          (case readAsText P file of
             None \<Rightarrow> handleTxtUpload_start s
           | Some compressedBase64 \<Rightarrow> reader_onload P compressedBase64 (handleTxtUpload_start s)))"

section \<open>The downloads\<close>

text \<open>
  \<^verbatim>\<open>
  const downloadTxt = () => {
    const blob = new Blob([compressedText], { type: "text/plain" });
    ...
    a.download = fileName + ".compressed.txt";
    a.click();
  };

  const downloadRestored = () => {
    if (!restoredBlob) return;
    ...
    a.download = fileName.replace(".compressed.txt", "") || "restored_file";
    a.click();
  };
  \<close>
  \<^verbatim>\<open>String.prototype.replace\<close> with a string pattern replaces the first occurrence of the
  pattern, searching from the left, and returns the string unchanged when there is none.
  \<^verbatim>\<open>x || y\<close> on strings is \<open>y\<close> exactly when \<open>x\<close> is the empty string.
\<close>

fun replace :: "jsstring \<Rightarrow> jsstring \<Rightarrow> jsstring \<Rightarrow> jsstring" where
  "replace [] pat rep = (if pat = [] then rep else [])"
| "replace (c # cs) pat rep =
     (if prefix pat (c # cs) then rep @ drop (length pat) (c # cs)
      else c # replace cs pat rep)"

datatype download_body = TextBody jsstring | BlobBody "byte list"

record download =
  download_name :: jsstring
  download_body :: download_body

definition downloadTxt :: "app_state \<Rightarrow> download" where
  "downloadTxt s =
     \<lparr>download_name = fileName s @ str ''.compressed.txt'',
      download_body = TextBody (compressedText s)\<rparr>"

definition downloadRestored :: "app_state \<Rightarrow> download option" where
  "downloadRestored s =
     (case restoredBlob s of
        None \<Rightarrow> None
      | Some blob \<Rightarrow>
          Some \<lparr>download_name =
                  (let n = replace (fileName s) (str ''.compressed.txt'') []
                   in if n = [] then str ''restored_file'' else n),
                download_body = BlobBody blob\<rparr>)"

section \<open>Test data\<close>

text \<open>
  \<open>ascii\<close> gives the bytes of a text file that holds ASCII text. \<open>gzip_of_A\<close> is a gzip
  stream of the one byte \<^verbatim>\<open>A\<close>, as zlib writes it at its default level: the ten-byte
  header, a final block with fixed Huffman codes (\<^verbatim>\<open>73 04 00\<close>), the CRC-32 of the data
  and its length. In base64 it is \<^verbatim>\<open>H4sIAAAAAAAAA3MEAIue2dMBAAAA\<close>.
\<close>

definition ascii :: "string \<Rightarrow> byte list" where
  "ascii s = map (\<lambda>c. of_nat (of_char c)) s"

definition gzip_of_A :: "byte list" where
  "gzip_of_A =
     [0x1F, 0x8B, 0x08, 0x00, 0x00, 0x00, 0x00, 0x00, 0x00, 0x03,
      0x73, 0x04, 0x00,
      0x8B, 0x9E, 0xD9, 0xD3, 0x01, 0x00, 0x00, 0x00]"

section \<open>Encoding without chunks\<close>

text \<open>
  The encoding "as one unchunked call": the whole array is turned into the binary string at
  once and handed to \<^verbatim>\<open>btoa\<close>.
\<close>

definition uint8ToBase64_unchunked :: "byte list \<Rightarrow> js_error + jsstring" where
  "uint8ToBase64_unchunked u8 = btoa (fromCharCode u8)"

section \<open>Properties of the codec\<close>

subsection \<open>Bytes and code units\<close>

lemma unat_byte_less: "unat (b :: byte) < 256"
  using unsigned_less [of b, where ?'a = nat] by simp

lemma ucast_byte_roundtrip: "(ucast (ucast (b :: byte) :: code_unit) :: byte) = b"
  by (rule ucast_up_ucast_id) (simp add: is_up)

lemma unat_ucast_byte: "unat (ucast (b :: byte) :: code_unit) = unat b"
  using unat_byte_less [of b] by (simp add: unsigned_ucast_eq take_bit_nat_eq_self)

lemma ucast_byte_le: "\<not> 0xFF < (ucast (b :: byte) :: code_unit)"
  using unat_byte_less [of b] by (simp add: word_less_nat_alt unat_ucast_byte)

lemma map_ucast_roundtrip: "map ucast (map ucast (bs :: byte list) :: jsstring) = bs"
  by (induction bs) (simp_all add: ucast_byte_roundtrip)

lemma map_ucast_comp_roundtrip: "map ((ucast :: code_unit \<Rightarrow> byte) \<circ> ucast) bs = bs"
  by (induction bs) (simp_all add: ucast_byte_roundtrip)

lemma fromCharCode_in_range: "\<not> list_ex (\<lambda>c. 0xFF < c) (fromCharCode u8)"
  by (induction u8) (simp_all add: fromCharCode_def ucast_byte_le)

subsection \<open>The two loops\<close>

lemma chunk_loop_eq: "chunk_loop u8 i binary = binary @ fromCharCode (drop i u8)"
proof (induction u8 i binary rule: chunk_loop.induct)
  case (1 u8 i binary)
  show ?case
  proof (cases "i < length u8")
    case True
    have split: "drop i u8 = take chunkSize (drop i u8) @ drop (i + chunkSize) u8"
      by (metis append_take_drop_id drop_drop add.commute)
    have "chunk_loop u8 i binary =
            chunk_loop u8 (i + chunkSize) (binary @ fromCharCode (subarray u8 i (i + chunkSize)))"
      using True by (subst chunk_loop.simps) simp
    also have "\<dots> = (binary @ fromCharCode (subarray u8 i (i + chunkSize)))
                      @ fromCharCode (drop (i + chunkSize) u8)"
      using True by (rule "1.IH")
    also have "\<dots> = binary @ fromCharCode (take chunkSize (drop i u8) @ drop (i + chunkSize) u8)"
      by (simp add: fromCharCode_def subarray_def)
    finally show ?thesis using split by simp
  next
    case False
    then show ?thesis by (subst chunk_loop.simps) (simp add: fromCharCode_def)
  qed
qed

lemma fill_loop_eq:
  "i \<le> length binary \<Longrightarrow> length u8 = length binary \<Longrightarrow>
     fill_loop binary (length binary) i u8 = take i u8 @ map ucast (drop i binary)"
proof (induction "length binary - i" arbitrary: i u8)
  case 0
  then show ?case by (subst fill_loop.simps) simp
next
  case (Suc k)
  then have lt: "i < length binary" by simp
  have "fill_loop binary (length binary) i u8 =
          fill_loop binary (length binary) (i + 1) (u8[i := ucast (binary ! i)])"
    using lt by (subst fill_loop.simps) simp
  also have "\<dots> = take (i + 1) (u8[i := ucast (binary ! i)]) @ map ucast (drop (i + 1) binary)"
    using Suc lt by (intro Suc.hyps(1)) auto
  also have "\<dots> = take i u8 @ map ucast (drop i binary)"
    using lt Suc.prems
    by (simp add: take_Suc_conv_app_nth Cons_nth_drop_Suc [symmetric])
  finally show ?case .
qed

lemma uint8ToBase64_eq: "uint8ToBase64 u8 = Inr (forgiving_base64_encode u8)"
  using fromCharCode_in_range [of u8]
  by (simp add: uint8ToBase64_def chunk_loop_eq btoa_def)
     (simp add: fromCharCode_def map_ucast_comp_roundtrip)

lemma base64ToUint8_eq:
  "base64ToUint8 b64 =
     (case forgiving_base64_decode b64 of
        None \<Rightarrow> Inl InvalidCharacterError
      | Some bs \<Rightarrow> Inr bs)"
proof (cases "forgiving_base64_decode b64")
  case None
  then show ?thesis by (simp add: base64ToUint8_def atob_def)
next
  case (Some bs)
  have "fill_loop (map ucast bs) (length (map ucast bs :: jsstring)) 0
          (replicate (length (map ucast bs :: jsstring)) 0) = bs"
    by (subst fill_loop_eq) (simp_all add: map_ucast_comp_roundtrip)
  with Some show ?thesis by (simp add: base64ToUint8_def atob_def Let_def)
qed

subsection \<open>The alphabet\<close>

lemma b64_alphabet_length: "length b64_alphabet = 64"
  by (simp add: b64_alphabet_def str_def)

lemma b64_alphabet_distinct: "distinct b64_alphabet"
  by (simp add: b64_alphabet_def str_def)

lemma b64_alphabet_no_padding: "padding_char \<notin> set b64_alphabet"
  by (simp add: b64_alphabet_def str_def padding_char_def)

lemma b64_alphabet_no_whitespace: "c \<in> set b64_alphabet \<Longrightarrow> \<not> ascii_whitespace c"
  by (auto simp add: b64_alphabet_def str_def ascii_whitespace_def)

lemma index_of_nth: "distinct xs \<Longrightarrow> n < length xs \<Longrightarrow> index_of (xs ! n) xs = Some n"
proof (induction xs arbitrary: n)
  case Nil
  then show ?case by simp
next
  case (Cons x xs)
  show ?case
  proof (cases n)
    case 0
    then show ?thesis by simp
  next
    case (Suc m)
    with Cons.prems have "xs ! m \<noteq> x" "index_of (xs ! m) xs = Some m"
      using Cons.IH [of m] by auto
    with Suc show ?thesis by simp
  qed
qed

lemma index_of_None: "index_of c xs = None \<longleftrightarrow> c \<notin> set xs"
  by (induction xs) (auto split: option.splits)

lemma b64_value_None: "b64_value c = None \<longleftrightarrow> c \<notin> set b64_alphabet"
  by (simp add: b64_value_def index_of_None)

lemma b64_value_char: "n < 64 \<Longrightarrow> b64_value (b64_char n) = Some n"
  by (simp add: b64_value_def b64_char_def index_of_nth b64_alphabet_distinct b64_alphabet_length)

lemma b64_char_in_alphabet: "n < 64 \<Longrightarrow> b64_char n \<in> set b64_alphabet"
  by (simp add: b64_char_def b64_alphabet_length)

lemma b64_char_not_padding: "n < 64 \<Longrightarrow> b64_char n \<noteq> padding_char"
  using b64_char_in_alphabet b64_alphabet_no_padding by metis

lemma b64_char_not_whitespace: "n < 64 \<Longrightarrow> \<not> ascii_whitespace (b64_char n)"
  using b64_char_in_alphabet b64_alphabet_no_whitespace by blast

subsection \<open>Six-bit values\<close>

lemma sextets_less: "s \<in> set (sextets bs) \<Longrightarrow> s < 64"
proof (induction bs arbitrary: s rule: sextets.induct)
  case (1 b1 b2 b3 bs)
  have "unat b1 div 4 < 64" "unat b1 mod 4 * 16 + unat b2 div 16 < 64"
       "unat b2 mod 16 * 4 + unat b3 div 64 < 64" "unat b3 mod 64 < 64"
    using unat_byte_less [of b1] unat_byte_less [of b2] unat_byte_less [of b3] by arith+
  with 1 show ?case by auto
next
  case (2 b1 b2)
  have "unat b1 div 4 < 64" "unat b1 mod 4 * 16 + unat b2 div 16 < 64"
       "unat b2 mod 16 * 4 < 64"
    using unat_byte_less [of b1] unat_byte_less [of b2] by arith+
  with 2 show ?case by auto
next
  case (3 b1)
  have "unat b1 div 4 < 64" "unat b1 mod 4 * 16 < 64"
    using unat_byte_less [of b1] by arith+
  with 3 show ?case by auto
next
  case 4
  then show ?case by simp
qed

lemma length_sextets:
  "length (sextets bs) =
     4 * (length bs div 3) + (if length bs mod 3 = 0 then 0 else length bs mod 3 + 1)"
proof (induction bs rule: sextets.induct)
  case (1 b1 b2 b3 bs)
  have h: "(3 + length bs) div 3 = Suc (length bs div 3)"
    by simp
  from 1 show ?case by (simp add: h)
qed simp_all

lemma div_mod_recombine:
  fixes q r k :: nat
  assumes "r < k"
  shows "(q * k + r) div k = q" and "(q * k + r) mod k = r"
  using assms by simp_all

lemma octets_group:
  fixes b1 b2 b3 :: byte
  shows "(of_nat (unat b1 div 4 * 4 + (unat b1 mod 4 * 16 + unat b2 div 16) div 16) :: byte) = b1"
    and "(of_nat ((unat b1 mod 4 * 16 + unat b2 div 16) mod 16 * 16
                  + (unat b2 mod 16 * 4 + unat b3 div 64) div 4) :: byte) = b2"
    and "(of_nat ((unat b2 mod 16 * 4 + unat b3 div 64) mod 4 * 64 + unat b3 mod 64) :: byte) = b3"
    and "(of_nat ((unat b1 mod 4 * 16 + unat b2 div 16) mod 16 * 16
                  + (unat b2 mod 16 * 4) div 4) :: byte) = b2"
    and "(of_nat (unat b1 div 4 * 4 + (unat b1 mod 4 * 16) div 16) :: byte) = b1"
proof -
  have hi2: "unat b2 div 16 < 16" and hi3: "unat b3 div 64 < 4"
    using unat_byte_less [of b2] unat_byte_less [of b3] by simp_all
  have e1: "unat b1 div 4 * 4 + (unat b1 mod 4 * 16 + unat b2 div 16) div 16 = unat b1"
    by (simp only: div_mod_recombine(1) [OF hi2] div_mult_mod_eq)
  have e2: "(unat b1 mod 4 * 16 + unat b2 div 16) mod 16 * 16
          + (unat b2 mod 16 * 4 + unat b3 div 64) div 4 = unat b2"
    by (simp only: div_mod_recombine [OF hi2] div_mod_recombine [OF hi3] div_mult_mod_eq)
  have e3: "(unat b2 mod 16 * 4 + unat b3 div 64) mod 4 * 64 + unat b3 mod 64 = unat b3"
    by (simp only: div_mod_recombine [OF hi3] div_mult_mod_eq)
  have e4: "(unat b1 mod 4 * 16 + unat b2 div 16) mod 16 * 16 + (unat b2 mod 16 * 4) div 4 = unat b2"
    by (simp only: div_mod_recombine [OF hi2] nonzero_mult_div_cancel_right div_mult_mod_eq)
  have e5: "unat b1 div 4 * 4 + (unat b1 mod 4 * 16) div 16 = unat b1"
    by simp
  show "(of_nat (unat b1 div 4 * 4 + (unat b1 mod 4 * 16 + unat b2 div 16) div 16) :: byte) = b1"
    by (simp only: e1) simp
  show "(of_nat ((unat b1 mod 4 * 16 + unat b2 div 16) mod 16 * 16
                  + (unat b2 mod 16 * 4 + unat b3 div 64) div 4) :: byte) = b2"
    by (simp only: e2) simp
  show "(of_nat ((unat b2 mod 16 * 4 + unat b3 div 64) mod 4 * 64 + unat b3 mod 64) :: byte) = b3"
    by (simp only: e3) simp
  show "(of_nat ((unat b1 mod 4 * 16 + unat b2 div 16) mod 16 * 16
                  + (unat b2 mod 16 * 4) div 4) :: byte) = b2"
    by (simp only: e4) simp
  show "(of_nat (unat b1 div 4 * 4 + (unat b1 mod 4 * 16) div 16) :: byte) = b1"
    by (simp only: e5) simp
qed

lemma octets_sextets: "octets (sextets bs) = bs"
  by (induction bs rule: sextets.induct)
     (simp_all only: sextets.simps octets.simps append.simps octets_group)

subsection \<open>Decoding what was encoded\<close>

lemma those_map_Some: "those (map Some xs) = Some xs"
  by (induction xs) simp_all

lemma those_None: "those (map f xs) = None \<longleftrightarrow> (\<exists>x \<in> set xs. f x = None)"
  by (induction xs) (auto split: option.splits)

lemma remove_padding_append:
  assumes "xs = [] \<or> last xs \<noteq> padding_char" and "p \<le> 2"
  shows "remove_padding (xs @ replicate p padding_char) = xs"
proof -
  from \<open>p \<le> 2\<close> consider "p = 0" | "p = 1" | "p = 2" by arith
  then show ?thesis
  proof cases
    case 1
    with assms show ?thesis by (auto simp: remove_padding_def)
  next
    case 2
    with assms show ?thesis by (auto simp: remove_padding_def butlast_append)
  next
    case 3
    then have "replicate p padding_char = [padding_char, padding_char]"
      by (simp add: numeral_2_eq_2)
    then show ?thesis by (simp add: remove_padding_def butlast_append)
  qed
qed

lemma encoded_chars:
  "map (b64_value \<circ> b64_char) (sextets bs) = map Some (sextets bs)"
  by (simp add: sextets_less b64_value_char)

lemma padding_not_whitespace: "\<not> ascii_whitespace padding_char"
  by (simp add: padding_char_def ascii_whitespace_def)

lemma encoded_no_whitespace:
  "filter (\<lambda>c. \<not> ascii_whitespace c) (forgiving_base64_encode bs) = forgiving_base64_encode bs"
proof (rule filter_True, rule ballI)
  fix c
  assume "c \<in> set (forgiving_base64_encode bs)"
  then have "(\<exists>s \<in> set (sextets bs). c = b64_char s) \<or> c = padding_char"
    by (auto simp: forgiving_base64_encode_def)
  then show "\<not> ascii_whitespace c"
    using sextets_less b64_char_not_whitespace padding_not_whitespace by blast
qed

lemma encoded_length: "length (forgiving_base64_encode bs) mod 4 = 0"
proof -
  have "length bs mod 3 = 0 \<or> length bs mod 3 = 1 \<or> length bs mod 3 = 2" by arith
  then show ?thesis
    by (auto simp: forgiving_base64_encode_def length_sextets)
qed

lemma sextets_length_mod: "length (sextets bs) mod 4 \<noteq> Suc 0"
proof -
  have "length bs mod 3 = 0 \<or> length bs mod 3 = 1 \<or> length bs mod 3 = 2" by arith
  then show ?thesis
    by (auto simp: length_sextets)
qed

lemma encoded_remove_padding:
  "remove_padding (forgiving_base64_encode bs) = map b64_char (sextets bs)"
  unfolding forgiving_base64_encode_def
proof (rule remove_padding_append)
  show "map b64_char (sextets bs) = [] \<or> last (map b64_char (sextets bs)) \<noteq> padding_char"
  proof (cases "sextets bs = []")
    case True
    then show ?thesis by simp
  next
    case False
    then have "last (sextets bs) < 64" by (intro sextets_less [of _ bs] last_in_set)
    with False show ?thesis by (simp add: last_map b64_char_not_padding)
  qed
  show "(3 - length bs mod 3) mod 3 \<le> 2" by arith
qed

lemma decode_encode: "forgiving_base64_decode (forgiving_base64_encode bs) = Some bs"
  by (simp add: forgiving_base64_decode_def encoded_no_whitespace encoded_length
                encoded_remove_padding sextets_length_mod encoded_chars those_map_Some
                octets_sextets)

subsection \<open>What the decoder rejects\<close>

lemma in_set_butlast_other: "x \<in> set xs \<Longrightarrow> x \<noteq> last xs \<Longrightarrow> x \<in> set (butlast xs)"
  by (induction xs) (auto split: if_splits)

lemma remove_padding_keeps:
  assumes "c \<in> set d" and "c \<noteq> padding_char"
  shows "c \<in> set (remove_padding d)"
proof -
  have one: "last d = padding_char \<Longrightarrow> c \<in> set (butlast d)"
    using assms by (simp add: in_set_butlast_other)
  have two: "last d = padding_char \<Longrightarrow> last (butlast d) = padding_char \<Longrightarrow>
               c \<in> set (butlast (butlast d))"
    using assms one by (simp add: in_set_butlast_other)
  show ?thesis
    using assms one two by (simp add: remove_padding_def)
qed

lemma remove_padding_prefix: "set (take (length d - 2) d) \<subseteq> set (remove_padding d)"
proof -
  have two: "butlast (butlast d) = take (length d - 2) d"
    by (simp add: butlast_conv_take numeral_2_eq_2)
  have one: "set (take (length d - 2) d) \<subseteq> set (butlast d)"
    unfolding butlast_conv_take by (rule set_take_subset_set_take) simp
  have none: "set (take (length d - 2) d) \<subseteq> set d"
    by (rule set_take_subset)
  show ?thesis
  proof (cases "2 \<le> length d \<and> last d = padding_char \<and> last (butlast d) = padding_char")
    case True
    then have "remove_padding d = butlast (butlast d)" by (simp add: remove_padding_def)
    with two show ?thesis by simp
  next
    case False
    show ?thesis
    proof (cases "d \<noteq> [] \<and> last d = padding_char")
      case True
      with False have "remove_padding d = butlast d" by (auto simp: remove_padding_def)
      with one show ?thesis by simp
    next
      case no: False
      with False have "remove_padding d = d" by (auto simp: remove_padding_def)
      with none show ?thesis by simp
    qed
  qed
qed

lemma decode_finish_None:
  "length d' mod 4 = 1 \<or> (\<exists>c \<in> set d'. c \<notin> set b64_alphabet) \<Longrightarrow>
     (if length d' mod 4 = 1 then None
      else (case those (map b64_value d') of
              None \<Rightarrow> None
            | Some ss \<Rightarrow> Some (octets ss))) = None"
proof (cases "length d' mod 4 = 1")
  case True
  then show ?thesis by simp
next
  case False
  assume "length d' mod 4 = 1 \<or> (\<exists>c \<in> set d'. c \<notin> set b64_alphabet)"
  with False have "\<exists>c \<in> set d'. b64_value c = None"
    by (simp add: b64_value_None)
  then have "those (map b64_value d') = None"
    by (simp only: those_None)
  then show ?thesis by simp
qed

lemma decode_fails:
  assumes "let d = filter (\<lambda>c. \<not> ascii_whitespace c) s;
               d' = (if length d mod 4 = 0 then remove_padding d else d)
           in length d' mod 4 = 1 \<or> (\<exists>c \<in> set d'. c \<notin> set b64_alphabet)"
  shows "forgiving_base64_decode s = None"
  using assms unfolding forgiving_base64_decode_def Let_def by (rule decode_finish_None)

lemma base64ToUint8_fails_iff:
  "base64ToUint8 s = Inl InvalidCharacterError \<longleftrightarrow> forgiving_base64_decode s = None"
  by (simp add: base64ToUint8_eq split: option.splits)

lemma decode_finish_iff:
  "(if length d' mod 4 = 1 then None
    else (case those (map b64_value d') of
            None \<Rightarrow> None
          | Some ss \<Rightarrow> Some (octets ss))) = None
   \<longleftrightarrow> length d' mod 4 = 1 \<or> (\<exists>c \<in> set d'. c \<notin> set b64_alphabet)"
proof (cases "length d' mod 4 = 1")
  case True
  then show ?thesis by simp
next
  case False
  have "those (map b64_value d') = None \<longleftrightarrow> (\<exists>c \<in> set d'. c \<notin> set b64_alphabet)"
    by (simp only: those_None b64_value_None)
  with False show ?thesis by (cases "those (map b64_value d')") auto
qed

lemma decode_None_iff:
  "forgiving_base64_decode s = None \<longleftrightarrow>
     (let d = filter (\<lambda>c. \<not> ascii_whitespace c) s;
          d' = (if length d mod 4 = 0 then remove_padding d else d)
      in length d' mod 4 = 1 \<or> (\<exists>c \<in> set d'. c \<notin> set b64_alphabet))"
  unfolding forgiving_base64_decode_def Let_def by (rule decode_finish_iff)

subsection \<open>Replacing the first occurrence\<close>

lemma replace_absent: "\<not> sublist pat s \<Longrightarrow> replace s pat rep = s"
  by (induction s) (auto simp: sublist_Cons_right)

subsection \<open>The test data\<close>

lemma payload_decodes: "base64ToUint8 (str ''H4sIAAAAAAAAA3MEAIue2dMBAAAA'') = Inr gzip_of_A"
  by (simp add: base64ToUint8_eq forgiving_base64_decode_def str_def ascii_whitespace_def
                remove_padding_def padding_char_def b64_value_def b64_alphabet_def gzip_of_A_def)

lemma percent_rejected: "base64ToUint8 (str ''%%%%'') = Inl InvalidCharacterError"
proof -
  have "0x25 \<in> set (str ''%%%%'')" "0x25 \<notin> set b64_alphabet" "0x25 \<noteq> padding_char"
       "\<not> ascii_whitespace 0x25"
    by (simp_all add: str_def b64_alphabet_def padding_char_def ascii_whitespace_def)
  then show ?thesis
    by (intro base64ToUint8_fails_iff [THEN iffD2] decode_fails)
       (auto simp: Let_def remove_padding_keeps)
qed

lemma ascii_distinct: "ascii ''H4sIAAAAAAAAA3MEAIue2dMBAAAA'' \<noteq> ascii ''%%%%''"
  by (simp add: ascii_def)

section \<open>The claims\<close>

text \<open>
  C2. Codec round trip: for every byte sequence \<open>b\<close>, of every length, encoding with
  \<open>uint8ToBase64\<close> succeeds and decoding its result with \<open>base64ToUint8\<close> gives exactly \<open>b\<close>.
\<close>

theorem codec_roundtrip: "and_then (uint8ToBase64 b) base64ToUint8 = Inr b"
  by (simp add: and_then_def uint8ToBase64_eq base64ToUint8_eq decode_encode)

text \<open>
  C3. Chunking transparency: for every byte sequence \<open>b\<close>, the encoding in chunks of
  0x8000 bytes that \<open>uint8ToBase64\<close> performs gives the same result as encoding the whole
  input in one unchunked call.
\<close>

theorem chunking_transparent: "uint8ToBase64 b = uint8ToBase64_unchunked b"
  by (simp add: uint8ToBase64_def uint8ToBase64_unchunked_def chunk_loop_eq)

text \<open>
  C4, as the code has it. Let \<open>d\<close> be the input without its ASCII whitespace, and \<open>d'\<close> be
  \<open>d\<close> without its one or two trailing padding characters when the length of \<open>d\<close> is a
  multiple of four, and \<open>d\<close> itself otherwise. \<open>base64ToUint8\<close> throws the
  InvalidCharacterError of \<^verbatim>\<open>atob\<close> (the malformed-payload failure) exactly when \<open>d'\<close>
  holds a character outside the 64-symbol alphabet, a padding character left in \<open>d'\<close>
  being such a character, or the length of \<open>d'\<close> leaves remainder 1 when divided by four;
  otherwise it returns bytes. In particular it throws for every input that contains a
  character that is neither one of the 64 symbols, nor the padding character, nor ASCII
  whitespace.
\<close>

theorem malformed_payload_rejected:
  "(base64ToUint8 s = Inl InvalidCharacterError \<longleftrightarrow>
      (let d = filter (\<lambda>c. \<not> ascii_whitespace c) s;
           d' = (if length d mod 4 = 0 then remove_padding d else d)
       in length d' mod 4 = 1 \<or> (\<exists>c \<in> set d'. c \<notin> set b64_alphabet)))
   \<and> (base64ToUint8 s = Inl InvalidCharacterError \<or> (\<exists>bs. base64ToUint8 s = Inr bs))
   \<and> (c \<in> set s \<and> c \<notin> set b64_alphabet \<and> c \<noteq> padding_char \<and> \<not> ascii_whitespace c
      \<longrightarrow> base64ToUint8 s = Inl InvalidCharacterError)"
proof (intro conjI impI)
  show "base64ToUint8 s = Inl InvalidCharacterError \<longleftrightarrow>
      (let d = filter (\<lambda>c. \<not> ascii_whitespace c) s;
           d' = (if length d mod 4 = 0 then remove_padding d else d)
       in length d' mod 4 = 1 \<or> (\<exists>c \<in> set d'. c \<notin> set b64_alphabet))"
    by (simp only: base64ToUint8_fails_iff decode_None_iff)
  show "base64ToUint8 s = Inl InvalidCharacterError \<or> (\<exists>bs. base64ToUint8 s = Inr bs)"
    by (simp add: base64ToUint8_eq split: option.splits)
  assume c: "c \<in> set s \<and> c \<notin> set b64_alphabet \<and> c \<noteq> padding_char \<and> \<not> ascii_whitespace c"
  define d where "d = filter (\<lambda>c. \<not> ascii_whitespace c) s"
  define d' where "d' = (if length d mod 4 = 0 then remove_padding d else d)"
  from c have "c \<in> set d" by (simp add: d_def)
  with c have "c \<in> set d'" by (simp add: d'_def remove_padding_keeps)
  with c have "length d' mod 4 = 1 \<or> (\<exists>c \<in> set d'. c \<notin> set b64_alphabet)" by blast
  then show "base64ToUint8 s = Inl InvalidCharacterError"
    unfolding base64ToUint8_fails_iff d'_def d_def
    by (intro decode_fails) (simp only: Let_def)
qed

text \<open>
  A character outside the alphabet in \<^verbatim>\<open>"QUJD%"\<close>, a length that leaves remainder 1 in
  \<^verbatim>\<open>"QUJDQ"\<close>, and padding in the wrong place in \<^verbatim>\<open>"Q=JD"\<close>, \<^verbatim>\<open>"QQ="\<close>, \<^verbatim>\<open>"QQ=Q"\<close>
  and \<^verbatim>\<open>"=="\<close>.
\<close>

theorem malformed_payload_rejected_witness:
  "base64ToUint8 (str ''QUJD%'') = Inl InvalidCharacterError
   \<and> base64ToUint8 (str ''QUJDQ'') = Inl InvalidCharacterError
   \<and> base64ToUint8 (str ''Q=JD'') = Inl InvalidCharacterError
   \<and> base64ToUint8 (str ''QQ='') = Inl InvalidCharacterError
   \<and> base64ToUint8 (str ''QQ=Q'') = Inl InvalidCharacterError
   \<and> base64ToUint8 (str ''=='') = Inl InvalidCharacterError"
proof -
  have 1: "0x25 \<in> set (str ''QUJD%'') \<and> 0x25 \<notin> set b64_alphabet \<and> 0x25 \<noteq> padding_char
           \<and> \<not> ascii_whitespace 0x25"
    by (simp add: str_def b64_alphabet_def padding_char_def ascii_whitespace_def)
  have 2: "let d = filter (\<lambda>c. \<not> ascii_whitespace c) (str ''QUJDQ'');
               d' = (if length d mod 4 = 0 then remove_padding d else d)
           in length d' mod 4 = 1 \<or> (\<exists>c \<in> set d'. c \<notin> set b64_alphabet)"
    by (simp add: str_def ascii_whitespace_def)
  have 3: "let d = filter (\<lambda>c. \<not> ascii_whitespace c) (str ''Q=JD'');
               d' = (if length d mod 4 = 0 then remove_padding d else d)
           in length d' mod 4 = 1 \<or> (\<exists>c \<in> set d'. c \<notin> set b64_alphabet)"
    by (simp add: str_def ascii_whitespace_def remove_padding_def padding_char_def
                  b64_alphabet_def)
  have 4: "let d = filter (\<lambda>c. \<not> ascii_whitespace c) (str ''QQ='');
               d' = (if length d mod 4 = 0 then remove_padding d else d)
           in length d' mod 4 = 1 \<or> (\<exists>c \<in> set d'. c \<notin> set b64_alphabet)"
    by (simp add: str_def ascii_whitespace_def b64_alphabet_def)
  have 5: "let d = filter (\<lambda>c. \<not> ascii_whitespace c) (str ''QQ=Q'');
               d' = (if length d mod 4 = 0 then remove_padding d else d)
           in length d' mod 4 = 1 \<or> (\<exists>c \<in> set d'. c \<notin> set b64_alphabet)"
    by (simp add: str_def ascii_whitespace_def remove_padding_def padding_char_def
                  b64_alphabet_def)
  have 6: "let d = filter (\<lambda>c. \<not> ascii_whitespace c) (str ''=='');
               d' = (if length d mod 4 = 0 then remove_padding d else d)
           in length d' mod 4 = 1 \<or> (\<exists>c \<in> set d'. c \<notin> set b64_alphabet)"
    by (simp add: str_def ascii_whitespace_def b64_alphabet_def)
  show ?thesis
    using 1 2 3 4 5 6
      malformed_payload_rejected [of "str ''QUJD%''" "0x25"]
      malformed_payload_rejected [of "str ''QUJDQ''"]
      malformed_payload_rejected [of "str ''Q=JD''"]
      malformed_payload_rejected [of "str ''QQ=''"]
      malformed_payload_rejected [of "str ''QQ=Q''"]
      malformed_payload_rejected [of "str ''==''"]
    by blast
qed

text \<open>
  C4 as stated does not hold. A space is outside the alphabet and is not the padding
  character, and yet the string \<^verbatim>\<open>"QUJD "\<close> decodes, to the bytes of \<^verbatim>\<open>ABC\<close>. The strings
  \<^verbatim>\<open>"QQ"\<close> and \<^verbatim>\<open>"QUI"\<close> lack the padding that their length calls for, and decode as
  well.
\<close>

theorem space_is_accepted:
  "0x20 \<in> set (str ''QUJD '') \<and> 0x20 \<notin> set b64_alphabet \<and> 0x20 \<noteq> padding_char
   \<and> base64ToUint8 (str ''QUJD '') = Inr [0x41, 0x42, 0x43]
   \<and> base64ToUint8 (str ''QQ'') = Inr [0x41]
   \<and> base64ToUint8 (str ''QUI'') = Inr [0x41, 0x42]"
  by (simp add: base64ToUint8_eq forgiving_base64_decode_def str_def ascii_whitespace_def
                remove_padding_def padding_char_def b64_value_def b64_alphabet_def)

text \<open>
  C6. The claim says that the restore direction names its download after the uploaded
  file, with the suffix \<^verbatim>\<open>.compressed.txt\<close> stripped. The code does not: \<open>handleTxtUpload\<close>
  never stores the uploaded file's name, on any platform and for any file. In a fresh
  session, uploading \<^verbatim>\<open>report.pdf.compressed.txt\<close> with the payload of \<open>gzip_of_A\<close>, on a
  platform that decompresses that stream to \<^verbatim>\<open>A\<close> and reads the file as its text,
  restores the byte and offers it as \<^verbatim>\<open>restored_file\<close>, not \<^verbatim>\<open>report.pdf\<close>. After a file
  named \<^verbatim>\<open>notes.txt\<close> went through the compress direction, whatever file is restored is
  offered as \<^verbatim>\<open>notes.txt\<close>.
\<close>

theorem restore_name_ignores_upload:
  "fileName (handleTxtUpload P (Some f) s) = fileName s
   \<and> downloadRestored
        (handleTxtUpload
           (P\<lparr>gunzip := (gunzip P)(gzip_of_A := Some [0x41]),
              utf8_decode := (utf8_decode P)
                (ascii ''H4sIAAAAAAAAA3MEAIue2dMBAAAA'' := str ''H4sIAAAAAAAAA3MEAIue2dMBAAAA'')\<rparr>)
           (Some \<lparr>name = str ''report.pdf.compressed.txt'',
                  bytes = Some (ascii ''H4sIAAAAAAAAA3MEAIue2dMBAAAA'')\<rparr>)
           initial_state)
       = Some \<lparr>download_name = str ''restored_file'', download_body = BlobBody [0x41]\<rparr>
   \<and> map_option download_name (downloadRestored
        (handleTxtUpload P (Some f)
           (handleFileUpload P (Some \<lparr>name = str ''notes.txt'', bytes = b\<rparr>) initial_state)))
       = map_option (\<lambda>blob. str ''notes.txt'')
           (restoredBlob (handleTxtUpload P (Some f)
              (handleFileUpload P (Some \<lparr>name = str ''notes.txt'', bytes = b\<rparr>) initial_state)))"
proof (intro conjI)
  show "fileName (handleTxtUpload P (Some f) s) = fileName s"
    by (simp add: handleTxtUpload_def handleTxtUpload_start_def reader_onload_def
             split: option.splits sum.splits)
  have nonempty: "str ''restored_file'' \<noteq> []" "str ''notes.txt'' \<noteq> []"
    by (simp_all add: str_def)
  show "downloadRestored
        (handleTxtUpload
           (P\<lparr>gunzip := (gunzip P)(gzip_of_A := Some [0x41]),
              utf8_decode := (utf8_decode P)
                (ascii ''H4sIAAAAAAAAA3MEAIue2dMBAAAA'' := str ''H4sIAAAAAAAAA3MEAIue2dMBAAAA'')\<rparr>)
           (Some \<lparr>name = str ''report.pdf.compressed.txt'',
                  bytes = Some (ascii ''H4sIAAAAAAAAA3MEAIue2dMBAAAA'')\<rparr>)
           initial_state)
       = Some \<lparr>download_name = str ''restored_file'', download_body = BlobBody [0x41]\<rparr>"
    by (simp add: handleTxtUpload_def handleTxtUpload_start_def readAsText_def reader_onload_def
                  restore_run_def and_then_def payload_decodes decompress_def
                  downloadRestored_def initial_state_def)
  have keep: "replace (str ''notes.txt'') (str ''.compressed.txt'') [] = str ''notes.txt''"
    by (rule replace_absent) (simp add: str_def sublist_Cons_right)
  show "map_option download_name (downloadRestored
        (handleTxtUpload P (Some f)
           (handleFileUpload P (Some \<lparr>name = str ''notes.txt'', bytes = b\<rparr>) initial_state)))
       = map_option (\<lambda>blob. str ''notes.txt'')
           (restoredBlob (handleTxtUpload P (Some f)
              (handleFileUpload P (Some \<lparr>name = str ''notes.txt'', bytes = b\<rparr>) initial_state)))"
    using keep nonempty
    by (simp add: handleTxtUpload_def handleTxtUpload_start_def reader_onload_def
                  handleFileUpload_def handleFileUpload_start_def handleFileUpload_finish_def
                  downloadRestored_def initial_state_def
             split: option.splits sum.splits)
qed

text \<open>
  C7. Failure atomicity: when the compress run of a file fails, \<open>compressedText\<close> and
  \<open>restoredBlob\<close> are left as they were; when the restore run fails, because the file
  cannot be read, or its text does not decode, or the decoded bytes do not decompress,
  \<open>restoredBlob\<close> and \<open>compressedText\<close> are left as they were. A slot changes only on
  success, to the complete output of the run, and then the slot of the other direction is
  left as it was.
\<close>

theorem failure_keeps_results:
  "(compress_run P f = Inl err \<longrightarrow>
      compressedText (handleFileUpload P (Some f) s) = compressedText s
      \<and> restoredBlob (handleFileUpload P (Some f) s) = restoredBlob s)
   \<and> (readAsText P f = None \<or> (\<exists>t. readAsText P f = Some t \<and> restore_run P t = Inl err) \<longrightarrow>
      restoredBlob (handleTxtUpload P (Some f) s) = restoredBlob s
      \<and> compressedText (handleTxtUpload P (Some f) s) = compressedText s)
   \<and> (compress_run P f = Inr base64 \<longrightarrow>
      compressedText (handleFileUpload P (Some f) s) = base64
      \<and> restoredBlob (handleFileUpload P (Some f) s) = restoredBlob s)
   \<and> (readAsText P f = Some t \<and> restore_run P t = Inr decompressedBytes \<longrightarrow>
      restoredBlob (handleTxtUpload P (Some f) s) = Some decompressedBytes
      \<and> compressedText (handleTxtUpload P (Some f) s) = compressedText s)"
  by (auto simp: handleFileUpload_def handleFileUpload_start_def handleFileUpload_finish_def
                 handleTxtUpload_def handleTxtUpload_start_def reader_onload_def)

text \<open>
  The four cases, on every platform \<open>P\<close> once three of its answers are fixed to what a
  browser gives: \<open>gzip_of_A\<close> decompresses to \<^verbatim>\<open>A\<close>, and the two ASCII files read as their
  text. From a state holding results of both directions, an unreadable file fails in
  either direction and the text \<^verbatim>\<open>%%%%\<close> fails to decode, and both slots stay. From the
  initial state, compressing the byte \<^verbatim>\<open>A\<close> stores the encoding of what the platform's
  compressor returns, and restoring from the payload of \<open>gzip_of_A\<close> stores the byte.
\<close>

theorem failure_keeps_results_witness:
  "\<forall>P.
     (let P' = P\<lparr>gunzip := (gunzip P)(gzip_of_A := Some [0x41]),
                 utf8_decode := (utf8_decode P)
                   (ascii ''H4sIAAAAAAAAA3MEAIue2dMBAAAA'' := str ''H4sIAAAAAAAAA3MEAIue2dMBAAAA'',
                    ascii ''%%%%'' := str ''%%%%'')\<rparr>;
          s = \<lparr>compressedText = str ''H4sIAAAAAAAAA3MEAIue2dMBAAAA'', fileName = str ''a.txt'',
               restoredBlob = Some [0x41], error = None, isCompressing = False,
               isDecompressing = False\<rparr>;
          unreadable = \<lparr>name = str ''b.bin'', bytes = None\<rparr>;
          garbage = \<lparr>name = str ''c.txt'', bytes = Some (ascii ''%%%%'')\<rparr>;
          original = \<lparr>name = str ''a.txt'', bytes = Some [0x41]\<rparr>;
          payload = \<lparr>name = str ''a.txt.compressed.txt'',
                     bytes = Some (ascii ''H4sIAAAAAAAAA3MEAIue2dMBAAAA'')\<rparr>
      in compressedText (handleFileUpload P' (Some unreadable) s) = str ''H4sIAAAAAAAAA3MEAIue2dMBAAAA''
         \<and> restoredBlob (handleFileUpload P' (Some unreadable) s) = Some [0x41]
         \<and> restoredBlob (handleTxtUpload P' (Some unreadable) s) = Some [0x41]
         \<and> compressedText (handleTxtUpload P' (Some unreadable) s) = str ''H4sIAAAAAAAAA3MEAIue2dMBAAAA''
         \<and> restoredBlob (handleTxtUpload P' (Some garbage) s) = Some [0x41]
         \<and> compressedText (handleTxtUpload P' (Some garbage) s) = str ''H4sIAAAAAAAAA3MEAIue2dMBAAAA''
         \<and> compressedText (handleFileUpload P' (Some original) initial_state)
              = forgiving_base64_encode (gzip P [0x41])
         \<and> restoredBlob (handleFileUpload P' (Some original) initial_state) = None
         \<and> restoredBlob (handleTxtUpload P' (Some payload) initial_state) = Some [0x41]
         \<and> compressedText (handleTxtUpload P' (Some payload) initial_state) = [])"
proof
  fix P :: platform
  define P' where "P' = P\<lparr>gunzip := (gunzip P)(gzip_of_A := Some [0x41]),
                 utf8_decode := (utf8_decode P)
                   (ascii ''H4sIAAAAAAAAA3MEAIue2dMBAAAA'' := str ''H4sIAAAAAAAAA3MEAIue2dMBAAAA'',
                    ascii ''%%%%'' := str ''%%%%'')\<rparr>"
  define s :: app_state where "s = \<lparr>compressedText = str ''H4sIAAAAAAAAA3MEAIue2dMBAAAA'', fileName = str ''a.txt'',
               restoredBlob = Some [0x41], error = None, isCompressing = False,
               isDecompressing = False\<rparr>"
  define unreadable :: js_file where "unreadable = \<lparr>name = str ''b.bin'', bytes = None\<rparr>"
  define garbage :: js_file where "garbage = \<lparr>name = str ''c.txt'', bytes = Some (ascii ''%%%%'')\<rparr>"
  define original :: js_file where "original = \<lparr>name = str ''a.txt'', bytes = Some [0x41]\<rparr>"
  define payload :: js_file where "payload = \<lparr>name = str ''a.txt.compressed.txt'',
                     bytes = Some (ascii ''H4sIAAAAAAAAA3MEAIue2dMBAAAA'')\<rparr>"
  have c1: "compress_run P' unreadable = Inl NotReadableError"
    by (simp add: compress_run_def compress_def and_then_def unreadable_def)
  have r1: "readAsText P' unreadable = None"
    by (simp add: readAsText_def unreadable_def)
  have r2: "readAsText P' garbage = Some (str ''%%%%'')"
    by (simp add: readAsText_def garbage_def P'_def)
  have d2: "restore_run P' (str ''%%%%'') = Inl InvalidCharacterError"
    by (simp add: restore_run_def and_then_def percent_rejected)
  have c3: "compress_run P' original = Inr (forgiving_base64_encode (gzip P [0x41]))"
    by (simp add: compress_run_def compress_def and_then_def uint8ToBase64_eq original_def P'_def)
  have r4: "readAsText P' payload = Some (str ''H4sIAAAAAAAAA3MEAIue2dMBAAAA'')"
    using ascii_distinct by (simp add: readAsText_def payload_def P'_def)
  have d4: "restore_run P' (str ''H4sIAAAAAAAAA3MEAIue2dMBAAAA'') = Inr [0x41]"
    by (simp add: restore_run_def and_then_def payload_decodes decompress_def P'_def)
  have s0: "compressedText initial_state = []" "restoredBlob initial_state = None"
    by (simp_all add: initial_state_def)
  have s1: "compressedText s = str ''H4sIAAAAAAAAA3MEAIue2dMBAAAA''" "restoredBlob s = Some [0x41]"
    by (simp_all add: s_def)
  have "compressedText (handleFileUpload P' (Some unreadable) s) = str ''H4sIAAAAAAAAA3MEAIue2dMBAAAA''
         \<and> restoredBlob (handleFileUpload P' (Some unreadable) s) = Some [0x41]
         \<and> restoredBlob (handleTxtUpload P' (Some unreadable) s) = Some [0x41]
         \<and> compressedText (handleTxtUpload P' (Some unreadable) s) = str ''H4sIAAAAAAAAA3MEAIue2dMBAAAA''
         \<and> restoredBlob (handleTxtUpload P' (Some garbage) s) = Some [0x41]
         \<and> compressedText (handleTxtUpload P' (Some garbage) s) = str ''H4sIAAAAAAAAA3MEAIue2dMBAAAA''
         \<and> compressedText (handleFileUpload P' (Some original) initial_state)
              = forgiving_base64_encode (gzip P [0x41])
         \<and> restoredBlob (handleFileUpload P' (Some original) initial_state) = None
         \<and> restoredBlob (handleTxtUpload P' (Some payload) initial_state) = Some [0x41]
         \<and> compressedText (handleTxtUpload P' (Some payload) initial_state) = []"
    using c1 r1 r2 d2 c3 r4 d4 s0 s1
      failure_keeps_results [of P' unreadable NotReadableError s]
      failure_keeps_results [of P' garbage InvalidCharacterError s]
      failure_keeps_results [of P' original _ initial_state
        "forgiving_base64_encode (gzip P [0x41])"]
      failure_keeps_results [of P' payload _ initial_state _
        "str ''H4sIAAAAAAAAA3MEAIue2dMBAAAA''" "[0x41]"]
    by simp
  then show "let P' = P\<lparr>gunzip := (gunzip P)(gzip_of_A := Some [0x41]),
                 utf8_decode := (utf8_decode P)
                   (ascii ''H4sIAAAAAAAAA3MEAIue2dMBAAAA'' := str ''H4sIAAAAAAAAA3MEAIue2dMBAAAA'',
                    ascii ''%%%%'' := str ''%%%%'')\<rparr>;
          s = \<lparr>compressedText = str ''H4sIAAAAAAAAA3MEAIue2dMBAAAA'', fileName = str ''a.txt'',
               restoredBlob = Some [0x41], error = None, isCompressing = False,
               isDecompressing = False\<rparr>;
          unreadable = \<lparr>name = str ''b.bin'', bytes = None\<rparr>;
          garbage = \<lparr>name = str ''c.txt'', bytes = Some (ascii ''%%%%'')\<rparr>;
          original = \<lparr>name = str ''a.txt'', bytes = Some [0x41]\<rparr>;
          payload = \<lparr>name = str ''a.txt.compressed.txt'',
                     bytes = Some (ascii ''H4sIAAAAAAAAA3MEAIue2dMBAAAA'')\<rparr>
      in compressedText (handleFileUpload P' (Some unreadable) s) = str ''H4sIAAAAAAAAA3MEAIue2dMBAAAA''
         \<and> restoredBlob (handleFileUpload P' (Some unreadable) s) = Some [0x41]
         \<and> restoredBlob (handleTxtUpload P' (Some unreadable) s) = Some [0x41]
         \<and> compressedText (handleTxtUpload P' (Some unreadable) s) = str ''H4sIAAAAAAAAA3MEAIue2dMBAAAA''
         \<and> restoredBlob (handleTxtUpload P' (Some garbage) s) = Some [0x41]
         \<and> compressedText (handleTxtUpload P' (Some garbage) s) = str ''H4sIAAAAAAAAA3MEAIue2dMBAAAA''
         \<and> compressedText (handleFileUpload P' (Some original) initial_state)
              = forgiving_base64_encode (gzip P [0x41])
         \<and> restoredBlob (handleFileUpload P' (Some original) initial_state) = None
         \<and> restoredBlob (handleTxtUpload P' (Some payload) initial_state) = Some [0x41]
         \<and> compressedText (handleTxtUpload P' (Some payload) initial_state) = []"
    unfolding Let_def P'_def s_def unreadable_def garbage_def original_def payload_def .
qed

text \<open>
  C8. Empty input: encoding the empty byte sequence succeeds and returns the empty string.
\<close>

theorem encode_empty: "uint8ToBase64 [] = Inr []"
  by (simp add: uint8ToBase64_eq forgiving_base64_encode_def)

text \<open>
  C9. No file, no effect: when either upload handler fires with no file, the state stays
  exactly as it was: no error, no result slot and no in-flight flag changes.
\<close>

theorem no_file_noop: "handleFileUpload P None s = s \<and> handleTxtUpload P None s = s"
  by (simp add: handleFileUpload_def handleTxtUpload_def)

text \<open>
  C10. Error reset: with a file present, both handlers pass through their start state, in
  which the error is cleared, before any processing. The error after the run is
  determined by the run alone: none when it succeeds (or, in the restore direction, when
  the file cannot be read), and this run's message when it fails. An earlier error never
  survives.
\<close>

theorem error_reset:
  "handleFileUpload P (Some f) s = handleFileUpload_finish P f (handleFileUpload_start f s)
   \<and> error (handleFileUpload_start f s) = None
   \<and> handleTxtUpload P (Some f) s =
        (case readAsText P f of
           None \<Rightarrow> handleTxtUpload_start s
         | Some compressedBase64 \<Rightarrow> reader_onload P compressedBase64 (handleTxtUpload_start s))
   \<and> error (handleTxtUpload_start s) = None
   \<and> error (handleFileUpload P (Some f) s) =
        (case compress_run P f of
           Inr base64 \<Rightarrow> None
         | Inl err \<Rightarrow> Some (FailedToCompress err))
   \<and> error (handleTxtUpload P (Some f) s) =
        (case readAsText P f of
           None \<Rightarrow> None
         | Some compressedBase64 \<Rightarrow>
             (case restore_run P compressedBase64 of
                Inr decompressedBytes \<Rightarrow> None
              | Inl err \<Rightarrow> Some (ErrorDecompressing err)))"
  by (simp add: handleFileUpload_def handleFileUpload_start_def handleFileUpload_finish_def
                handleTxtUpload_def handleTxtUpload_start_def reader_onload_def
           split: sum.splits option.splits)

end
